theory Spec2Isabelle
  imports Main
begin

section \<open>Robot node (main\_robot.py): data model\<close>

text \<open>
  The module-level globals of the robot node are gathered in one record that every
  operation takes and returns. Python integers are unbounded, hence \<open>int\<close>. Strings
  are byte lists (MicroPython keeps a \<open>str\<close> as its UTF-8 bytes). The global
  \<open>rx_buffer\<close> is read and written by \<open>main\<close> alone; it is passed beside the record
  where \<open>main\<close> uses it.
\<close>

datatype mode = MODE_MANUAL | MODE_LINE_FOLLOWING | MODE_STOPPED

datatype py_error = IndexError | ZeroDivisionError | TypeError | UnicodeError

text \<open>
  Modelled from the spec: the motor driver \<open>robot.Motors\<close> belongs to the vendor
  library, which the repository does not contain. The spec speaks of a signed wheel-speed
  pair and of "motors off" as the pair (0,0); the code reads the pair back through
  \<open>motors._left_speed\<close> and \<open>motors._right_speed\<close>.
\<close>

record motors =
  left_speed :: int
  right_speed :: int

definition set_speeds :: "int \<Rightarrow> int \<Rightarrow> motors" where
  "set_speeds l r = \<lparr>left_speed = l, right_speed = r\<rparr>"

definition motors_off :: motors where
  "motors_off = set_speeds 0 0"

record robot =
  current_mode :: mode
  line_calibrated :: bool
  current_speed :: int
  p :: int
  last_p :: int
  line :: "int list"
  collision_detected :: bool
  motor :: motors

definition SPEED_LEVEL_1 :: int where "SPEED_LEVEL_1 = 1000"
definition SPEED_LEVEL_2 :: int where "SPEED_LEVEL_2 = 1250"
definition SPEED_LEVEL_3 :: int where "SPEED_LEVEL_3 = 1500"

definition calibration_speed :: int where "calibration_speed = 200"
definition calibration_count :: nat where "calibration_count = 100"

text \<open>The values the globals have when the module has been loaded (lines 29--52).\<close>

definition initial_robot :: robot where
  "initial_robot =
     \<lparr>current_mode = MODE_STOPPED, line_calibrated = False,
      current_speed = SPEED_LEVEL_1, p = 0, last_p = 0, line = [0, 0, 0, 0, 0],
      collision_detected = False, motor = motors_off\<rparr>"

section \<open>Collision guard\<close>

text \<open>
  \<open>check_collisions\<close> (lines 298--322). The two arguments are what
  \<open>bump_sensors.left_is_pressed()\<close> and \<open>right_is_pressed()\<close> answer after the read.
  The result pairs the new state with the returned flag.
\<close>

definition check_collisions :: "bool \<Rightarrow> bool \<Rightarrow> robot \<Rightarrow> robot \<times> bool" where
  "check_collisions left_pressed right_pressed s =
     (if left_pressed \<or> right_pressed then
        (if \<not> collision_detected s then
           (let s1 = s\<lparr>collision_detected := True\<rparr> in
            if current_mode s1 \<noteq> MODE_STOPPED \<and> left_speed (motor s1) > 0
               \<and> right_speed (motor s1) > 0
            then (s1\<lparr>motor := motors_off, current_mode := MODE_STOPPED\<rparr>, True)
            else (s1, False))
         else (s, False))
      else
        (if collision_detected s then (s\<lparr>collision_detected := False\<rparr>, False)
         else (s, False)))"

section \<open>Line-following step\<close>

text \<open>Python list indexing with a non-negative index: out of range raises.\<close>

definition py_index :: "int list \<Rightarrow> nat \<Rightarrow> py_error + int" where
  "py_index xs i = (if i < length xs then Inr (xs ! i) else Inl IndexError)"

text \<open>Python \<open>//\<close>: floor division, which is \<open>div\<close> on \<open>int\<close>; a zero divisor raises.\<close>

definition py_floordiv :: "int \<Rightarrow> int \<Rightarrow> py_error + int" where
  "py_floordiv a b = (if b = 0 then Inl ZeroDivisionError else Inr (a div b))"

definition bind_err :: "py_error + 'a \<Rightarrow> ('a \<Rightarrow> py_error + 'b) \<Rightarrow> py_error + 'b" where
  "bind_err m f = (case m of Inl e \<Rightarrow> Inl e | Inr a \<Rightarrow> f a)"

text \<open>
  Lines 339--343: the weighted sum of readings 1..4 over \<open>sum(line)\<close>, the sum of all
  five readings. The handler catches the division fault only; an index fault goes on.
\<close>

definition centroid :: "int list \<Rightarrow> py_error + int" where
  "centroid v =
     bind_err (py_index v 1) (\<lambda>v1.
     bind_err (py_index v 2) (\<lambda>v2.
     bind_err (py_index v 3) (\<lambda>v3.
     bind_err (py_index v 4) (\<lambda>v4.
       (case py_floordiv (1000 * v1 + 2000 * v2 + 3000 * v3 + 4000 * v4) (sum_list v) of
          Inl ZeroDivisionError \<Rightarrow> Inr 2000
        | Inl e \<Rightarrow> Inl e
        | Inr l \<Rightarrow> Inr l)))))"

text \<open>
  Lines 333--343: the position estimate \<open>l\<close>. The first argument is the global \<open>p\<close>
  as the previous step left it. The conjunction is evaluated left to right and stops at
  the first reading that is not below 700.
\<close>

definition estimate_l :: "int \<Rightarrow> int list \<Rightarrow> py_error + int" where
  "estimate_l prev v =
     bind_err (py_index v 1) (\<lambda>v1.
       if v1 < 700 then
         bind_err (py_index v 2) (\<lambda>v2.
           if v2 < 700 then
             bind_err (py_index v 3) (\<lambda>v3.
               if v3 < 700 then (if prev < 0 then Inr 0 else Inr 4000)
               else centroid v)
           else centroid v)
       else centroid v)"

text \<open>
  \<open>follow_line\<close> (lines 324--358). The argument \<open>v\<close> is the list that
  \<open>line_sensors.read_calibrated()\<close> hands over.
\<close>

definition follow_line :: "int list \<Rightarrow> robot \<Rightarrow> py_error + robot" where
  "follow_line v s =
     (let s1 = s\<lparr>line := v\<rparr> in
      bind_err (estimate_l (p s1) (line s1)) (\<lambda>l.
        let pn = l - 2000;
            d = pn - last_p s1;
            pid = pn * 15 + d * 300;
            min_speed = 0;
            max_speed = current_speed s1;
            left = max min_speed (min max_speed (max_speed + pid));
            right = max min_speed (min max_speed (max_speed - pid))
        in Inr (s1\<lparr>p := pn, last_p := pn, motor := set_speeds left right\<rparr>)))"


text \<open>
  The position estimate as the spec words it: the same weighted sum, divided by
  \<open>v1+v2+v3+v4\<close>, and 2000 when that divisor is zero. It is compared with
  \<open>centroid\<close> below.
\<close>

definition claimed_l :: "int list \<Rightarrow> int" where
  "claimed_l v =
     (let w = v ! 1 + v ! 2 + v ! 3 + v ! 4
      in if w = 0 then 2000
         else (1000 * (v ! 1) + 2000 * (v ! 2) + 3000 * (v ! 3) + 4000 * (v ! 4)) div w)"

section \<open>Calibration sequence\<close>

text \<open>
  The driver calls that \<open>calibrate_line_sensors\<close> makes inside its \<open>try\<close> block
  (lines 181--215), and what each does to the wheel-speed pair.
\<close>

datatype hw_call =
    MotorsSetSpeeds int int
  | MotorsOff
  | LineSensorsCalibrate
  | SleepMs nat
  | DisplayFill
  | DisplayText string
  | DisplayShow

fun hw_effect :: "hw_call \<Rightarrow> motors \<Rightarrow> motors" where
  "hw_effect (MotorsSetSpeeds l r) m = set_speeds l r"
| "hw_effect MotorsOff m = motors_off"
| "hw_effect LineSensorsCalibrate m = m"
| "hw_effect (SleepMs n) m = m"
| "hw_effect DisplayFill m = m"
| "hw_effect (DisplayText t) m = m"
| "hw_effect DisplayShow m = m"

text \<open>
  A fault of the hardware is an input of the model: \<open>Some (k, msg)\<close> says that the
  \<open>k\<close>-th driver call of the \<open>try\<close> block (counted from 0) raises an exception whose
  text is \<open>msg\<close>; \<open>None\<close> says that no call raises. \<open>run_hw\<close> performs the calls in
  order from call number \<open>i\<close> and stops at the one that raises. The calls before the
  \<open>try\<close> and those of the \<open>except\<close> handler are outside the protected block and are
  taken to succeed.
\<close>

type_synonym fault = "(nat \<times> string) option"

definition raises_at :: "fault \<Rightarrow> nat \<Rightarrow> string option" where
  "raises_at f i = (case f of None \<Rightarrow> None | Some (k, msg) \<Rightarrow> if k = i then Some msg else None)"

fun run_hw :: "fault \<Rightarrow> nat \<Rightarrow> hw_call list \<Rightarrow> motors \<Rightarrow> string option \<times> motors" where
  "run_hw f i [] m = (None, m)"
| "run_hw f i (c # cs) m =
     (case raises_at f i of
        Some msg \<Rightarrow> (Some msg, m)
      | None \<Rightarrow> run_hw f (Suc i) cs (hw_effect c m))"

text \<open>Lines 183--201: the three sweeps, \<open>int(calibration_count/4)\<close> being 25.\<close>

definition sweep_calls :: "hw_call list" where
  "sweep_calls =
     [MotorsSetSpeeds calibration_speed (- calibration_speed)]
     @ replicate (calibration_count div 4) LineSensorsCalibrate
     @ [MotorsOff, SleepMs 200, MotorsSetSpeeds (- calibration_speed) calibration_speed]
     @ replicate (calibration_count div 2) LineSensorsCalibrate
     @ [MotorsOff, SleepMs 200, MotorsSetSpeeds calibration_speed (- calibration_speed)]
     @ replicate (calibration_count div 4) LineSensorsCalibrate
     @ [MotorsOff]"

text \<open>Lines 204--210: the completion screen and the pause after it.\<close>

definition complete_calls :: "hw_call list" where
  "complete_calls =
     [DisplayFill, DisplayText ''Calibration'', DisplayText ''Complete!'',
      DisplayText ''Starting Line'', DisplayText ''Following...'', DisplayShow, SleepMs 1000]"

text \<open>Lines 216--225: the \<open>except\<close> handler.\<close>

definition calibration_failed :: "string \<Rightarrow> robot \<Rightarrow> robot \<times> string" where
  "calibration_failed e s =
     (s\<lparr>line_calibrated := False\<rparr>, ''ERROR:CALIBRATION_FAILED ('' @ e @ '')'')"

definition calibrate_line_sensors :: "fault \<Rightarrow> robot \<Rightarrow> robot \<times> string" where
  "calibrate_line_sensors f s =
     (let s1 = s\<lparr>current_mode := MODE_STOPPED, motor := motors_off\<rparr> in
      case run_hw f 0 sweep_calls (motor s1) of
        (Some e, m) \<Rightarrow> calibration_failed e (s1\<lparr>motor := m\<rparr>)
      | (None, m) \<Rightarrow>
          (let s2 = s1\<lparr>motor := m, line_calibrated := True\<rparr> in
           case run_hw f (length sweep_calls) complete_calls (motor s2) of
             (Some e, m') \<Rightarrow> calibration_failed e (s2\<lparr>motor := m'\<rparr>)
           | (None, m') \<Rightarrow>
               (s2\<lparr>motor := m', current_mode := MODE_LINE_FOLLOWING\<rparr>,
                ''LINE_SENSORS:CALIBRATED_AND_FOLLOWING'')))"

text \<open>
  A fault occurs during the sequence exactly when the faulting call number is one of the
  calls of the \<open>try\<close> block.
\<close>

definition fault_occurs :: "fault \<Rightarrow> bool" where
  "fault_occurs f =
     (case f of None \<Rightarrow> False
      | Some (k, msg) \<Rightarrow> k < length sweep_calls + length complete_calls)"

text \<open>
  The start of \<open>main\<close> (lines 361--396) up to the main loop: of the robot state it
  touches only what \<open>calibrate_line_sensors\<close> touches; the returned text is dropped.
\<close>

definition boot :: "fault \<Rightarrow> robot" where
  "boot f = fst (calibrate_line_sensors f initial_robot)"

section \<open>Text operations of the interpreter\<close>

text \<open>
  MicroPython's \<open>str\<close> methods work on the bytes of the string and know ASCII only:
  whitespace is space, tab, line feed, carriage return, vertical tab and form feed, and
  \<open>upper\<close> moves \<open>a\<close>..\<open>z\<close> to \<open>A\<close>..\<open>Z\<close>.
\<close>

definition newline :: char where
  "newline = CHR 0x0A"

definition isspace :: "char \<Rightarrow> bool" where
  "isspace c = (c = CHR '' '' \<or> c = CHR 0x09 \<or> c = CHR 0x0A \<or> c = CHR 0x0D
                \<or> c = CHR 0x0B \<or> c = CHR 0x0C)"

definition strip :: "string \<Rightarrow> string" where
  "strip s = rev (dropWhile isspace (rev (dropWhile isspace s)))"

definition toupper :: "char \<Rightarrow> char" where
  "toupper c =
     (case map_of (zip ''abcdefghijklmnopqrstuvwxyz'' ''ABCDEFGHIJKLMNOPQRSTUVWXYZ'') c of
        Some u \<Rightarrow> u
      | None \<Rightarrow> c)"

definition upper :: "string \<Rightarrow> string" where
  "upper s = map toupper s"

text \<open>
  \<open>str.split()\<close> without argument: the maximal runs of non-whitespace. The first
  argument of \<open>split_from\<close> is the run read so far.
\<close>

fun split_from :: "string \<Rightarrow> string \<Rightarrow> string list" where
  "split_from cur [] = (if cur = [] then [] else [cur])"
| "split_from cur (c # cs) =
     (if isspace c then (if cur = [] then split_from [] cs else cur # split_from [] cs)
      else split_from (cur @ [c]) cs)"

definition split :: "string \<Rightarrow> string list" where
  "split s = split_from [] s"

text \<open>\<open>str.split('\n')\<close>: the pieces between line feeds; always at least one piece.\<close>

fun split_nl :: "string \<Rightarrow> string list" where
  "split_nl [] = [[]]"
| "split_nl (c # cs) =
     (if c = newline then [] # split_nl cs
      else (case split_nl cs of [] \<Rightarrow> [[c]] | f # fs \<Rightarrow> (c # f) # fs))"

text \<open>Formatting of an integer and of a truth value inside an f-string.\<close>

definition digit_char :: "nat \<Rightarrow> char" where
  "digit_char d = ''0123456789'' ! d"

fun str_nat :: "nat \<Rightarrow> string" where
  "str_nat n =
     (if n < 10 then [digit_char n] else str_nat (n div 10) @ [digit_char (n mod 10)])"

declare str_nat.simps [simp del]

definition str_int :: "int \<Rightarrow> string" where
  "str_int i = (if i < 0 then CHR ''-'' # str_nat (nat (- i)) else str_nat (nat i))"

definition str_bool :: "bool \<Rightarrow> string" where
  "str_bool b = (if b then ''True'' else ''False'')"

text \<open>
  \<open>int(level)\<close> on one token of the command: an optional sign and decimal digits give
  the number, any other token is a \<open>ValueError\<close> (\<open>None\<close>).
\<close>

definition digit_of :: "char \<Rightarrow> nat option" where
  "digit_of c = map_of (zip ''0123456789'' [0, 1, 2, 3, 4, 5, 6, 7, 8, 9]) c"

definition is_digit :: "char \<Rightarrow> bool" where
  "is_digit c = (digit_of c \<noteq> None)"

definition digits_value :: "string \<Rightarrow> nat" where
  "digits_value ds = foldl (\<lambda>acc c. 10 * acc + the (digit_of c)) 0 ds"

definition py_int :: "string \<Rightarrow> int option" where
  "py_int t =
     (case t of
        [] \<Rightarrow> None
      | c # cs \<Rightarrow>
          if c = CHR ''-'' \<or> c = CHR ''+'' then
            (if cs \<noteq> [] \<and> list_all is_digit cs
             then Some (if c = CHR ''-'' then - int (digits_value cs) else int (digits_value cs))
             else None)
          else if list_all is_digit t then Some (int (digits_value t)) else None)"

text \<open>
  \<open>bytes.decode()\<close>: the text has the same bytes; bytes that are not well-formed UTF-8
  raise. \<open>utf8_scan need bs\<close> reads a lead byte and then \<open>need\<close> continuation bytes.
\<close>

fun utf8_scan :: "nat \<Rightarrow> string \<Rightarrow> bool" where
  "utf8_scan need [] = (need = 0)"
| "utf8_scan need (b # bs) =
     (let c = (of_char b :: nat) in
      if need > 0 then (128 \<le> c \<and> c < 192 \<and> utf8_scan (need - 1) bs)
      else if c < 128 then utf8_scan 0 bs
      else if c < 192 then False
      else if c < 224 then utf8_scan 1 bs
      else if c < 240 then utf8_scan 2 bs
      else if c < 248 then utf8_scan 3 bs
      else False)"

definition decode :: "string \<Rightarrow> py_error + string" where
  "decode bs = (if utf8_scan 0 bs then Inr bs else Inl UnicodeError)"

section \<open>Command handlers\<close>

text \<open>
  What a handler reads from outside the program: the two bump switches and the random
  battery figure of \<open>cmd_status\<close>, and the hardware fault met by a calibration run. The
  display, the LEDs and the buzzer hold no state that the program reads back; calls to
  them are left out.
\<close>

record env =
  left_is_pressed :: bool
  right_is_pressed :: bool
  battery :: int
  calibration_fault :: fault

text \<open>A sample of these inputs: no switch pressed, battery figure 90, no hardware fault.\<close>

definition sample_env :: env where
  "sample_env =
     \<lparr>left_is_pressed = False, right_is_pressed = False, battery = 90,
      calibration_fault = None\<rparr>"

definition cmd_forward :: "robot \<Rightarrow> robot \<times> string" where
  "cmd_forward s =
     (if \<not> collision_detected s then
        (s\<lparr>current_mode := MODE_MANUAL,
           motor := set_speeds (current_speed s) (current_speed s)\<rparr>,
         ''MOVING:FORWARD at speed '' @ str_int (current_speed s))
      else (s, ''ERROR:COLLISION_DETECTED''))"

definition cmd_backward :: "robot \<Rightarrow> robot \<times> string" where
  "cmd_backward s =
     (s\<lparr>current_mode := MODE_MANUAL,
        motor := set_speeds (- current_speed s) (- current_speed s)\<rparr>,
      ''MOVING:BACKWARD at speed '' @ str_int (current_speed s))"

definition cmd_left :: "robot \<Rightarrow> robot \<times> string" where
  "cmd_left s =
     (s\<lparr>current_mode := MODE_MANUAL,
        motor := set_speeds (- current_speed s) (current_speed s)\<rparr>,
      ''TURNING:LEFT at speed '' @ str_int (current_speed s))"

definition cmd_right :: "robot \<Rightarrow> robot \<times> string" where
  "cmd_right s =
     (s\<lparr>current_mode := MODE_MANUAL,
        motor := set_speeds (current_speed s) (- current_speed s)\<rparr>,
      ''TURNING:RIGHT at speed '' @ str_int (current_speed s))"

definition cmd_stop :: "robot \<Rightarrow> robot \<times> string" where
  "cmd_stop s =
     (let prev_mode = current_mode s;
          s1 = s\<lparr>current_mode := MODE_STOPPED, motor := motors_off\<rparr>
      in if prev_mode = MODE_LINE_FOLLOWING
         then (s1\<lparr>current_mode := MODE_LINE_FOLLOWING\<rparr>, ''STOPPED (resuming line following)'')
         else (s1, ''STOPPED''))"

definition cmd_speed :: "string \<Rightarrow> robot \<Rightarrow> robot \<times> string" where
  "cmd_speed level s =
     (case py_int level of
        None \<Rightarrow> (s, ''ERROR:INVALID_SPEED_LEVEL (use 1-3)'')
      | Some level_num \<Rightarrow>
          if level_num = 1 \<or> level_num = 2 \<or> level_num = 3 then
            (let s1 = s\<lparr>current_speed :=
                          (if level_num = 1 then SPEED_LEVEL_1
                           else if level_num = 2 then SPEED_LEVEL_2 else SPEED_LEVEL_3)\<rparr>
             in (s1, ''SPEED_SET:'' @ str_int level_num @ '' ('' @ str_int (current_speed s1)
                     @ '')''))
          else (s, ''ERROR:INVALID_SPEED_LEVEL (use 1-3)''))"

definition cmd_status :: "env \<Rightarrow> robot \<Rightarrow> robot \<times> string" where
  "cmd_status e s =
     (let mode_text =
            (if current_mode s = MODE_MANUAL then ''MANUAL''
             else if current_mode s = MODE_LINE_FOLLOWING then ''LINE_FOLLOWING''
             else ''STOPPED'')
      in (s, ''STATUS:OK,''
             @ ''BATTERY:'' @ str_int (battery e) @ ''%,''
             @ ''MODE:'' @ mode_text @ '',''
             @ ''SPEED:'' @ str_int (current_speed s) @ '',''
             @ ''CALIBRATED:'' @ str_bool (line_calibrated s) @ '',''
             @ ''COLLISION:'' @ str_bool (collision_detected s) @ '',''
             @ ''LEFT_BUMP:'' @ str_bool (left_is_pressed e) @ '',''
             @ ''RIGHT_BUMP:'' @ str_bool (right_is_pressed e)))"

definition cmd_line_follow :: "env \<Rightarrow> string \<Rightarrow> robot \<Rightarrow> robot \<times> string" where
  "cmd_line_follow e param s =
     (if upper param = ''START'' then
        (if line_calibrated s
         then (s\<lparr>current_mode := MODE_LINE_FOLLOWING\<rparr>, ''LINE_FOLLOWING:STARTED'')
         else (s, ''ERROR:NOT_CALIBRATED''))
      else if upper param = ''STOP'' then
        (s\<lparr>current_mode := MODE_STOPPED, motor := motors_off\<rparr>, ''LINE_FOLLOWING:STOPPED'')
      else if upper param = ''CALIBRATE'' then calibrate_line_sensors (calibration_fault e) s
      else if current_mode s = MODE_LINE_FOLLOWING then (s, ''LINE_FOLLOWING:ACTIVE'')
      else (s, ''LINE_FOLLOWING:INACTIVE''))"

definition cmd_heartbeat :: "string \<Rightarrow> robot \<Rightarrow> robot \<times> string" where
  "cmd_heartbeat val s = (s, ''HEARTBEAT_ACK:'' @ val)"

section \<open>Command dispatch\<close>

text \<open>
  The dictionary \<open>COMMANDS\<close> (lines 231--242) maps a name to a fixed answer or to one of
  the handler functions.
\<close>

datatype handler =
    Cmd_status | Cmd_forward | Cmd_backward | Cmd_left | Cmd_right | Cmd_stop
  | Cmd_speed | Cmd_line_follow | Cmd_heartbeat

datatype command = Static string | Callable handler

definition COMMANDS :: "(string \<times> command) list" where
  "COMMANDS =
     [(''PING'', Static ''PONG''),
      (''STATUS'', Callable Cmd_status),
      (''FORWARD'', Callable Cmd_forward),
      (''BACKWARD'', Callable Cmd_backward),
      (''LEFT'', Callable Cmd_left),
      (''RIGHT'', Callable Cmd_right),
      (''STOP'', Callable Cmd_stop),
      (''SPEED'', Callable Cmd_speed),
      (''LINE'', Callable Cmd_line_follow),
      (''HEARTBEAT'', Callable Cmd_heartbeat)]"

text \<open>
  A call of a handler with the given positional arguments. Python binds the arguments to
  the parameters of the \<open>def\<close> before the body runs and raises \<open>TypeError\<close> when their
  number does not fit: \<open>cmd_speed(level)\<close> and \<open>cmd_heartbeat(val)\<close> take exactly one,
  \<open>cmd_line_follow(param="")\<close> none or one, every other handler none.
\<close>

fun call :: "env \<Rightarrow> handler \<Rightarrow> string list \<Rightarrow> robot \<Rightarrow> py_error + robot \<times> string" where
  "call e Cmd_status [] s = Inr (cmd_status e s)"
| "call e Cmd_forward [] s = Inr (cmd_forward s)"
| "call e Cmd_backward [] s = Inr (cmd_backward s)"
| "call e Cmd_left [] s = Inr (cmd_left s)"
| "call e Cmd_right [] s = Inr (cmd_right s)"
| "call e Cmd_stop [] s = Inr (cmd_stop s)"
| "call e Cmd_speed [level] s = Inr (cmd_speed level s)"
| "call e Cmd_line_follow [] s = Inr (cmd_line_follow e [] s)"
| "call e Cmd_line_follow [param] s = Inr (cmd_line_follow e param s)"
| "call e Cmd_heartbeat [val] s = Inr (cmd_heartbeat val s)"
| "call e h args s = Inl TypeError"

text \<open>
  \<open>process_command\<close> (lines 264--296). \<open>parts[0]\<close> of an empty list raises
  \<open>IndexError\<close>; the function has no \<open>try\<close>, so a fault of the call leaves it. A fault
  arises before any global is assigned, so the state at a fault is the state at entry.
\<close>

definition process_command :: "env \<Rightarrow> string \<Rightarrow> robot \<Rightarrow> py_error + robot \<times> string" where
  "process_command e command s =
     (let parts = split (upper (strip command)) in
      case parts of
        [] \<Rightarrow> Inl IndexError
      | base_cmd # rest \<Rightarrow>
          (case map_of COMMANDS base_cmd of
             None \<Rightarrow> Inr (s, ''ERROR:UNKNOWN_COMMAND'')
           | Some (Static response) \<Rightarrow> Inr (s, response)
           | Some (Callable h) \<Rightarrow>
               if length parts > 1 then call e h [parts ! 1] s else call e h [] s))"

section \<open>Receive buffer of the main loop\<close>

text \<open>
  Lines 423--427: the loop over the complete commands. A blank command is skipped; each
  answer is written to the UART with a line feed appended. A fault of
  \<open>process_command\<close> ends the loop; the result then carries the fault, the state
  reached and the answers written before it.
\<close>

fun dispatch_frames ::
  "env \<Rightarrow> string list \<Rightarrow> robot \<Rightarrow> py_error option \<times> robot \<times> string list" where
  "dispatch_frames e [] s = (None, s, [])"
| "dispatch_frames e (cmd # cmds) s =
     (if strip cmd \<noteq> [] then
        (case process_command e (strip cmd) s of
           Inl err \<Rightarrow> (Some err, s, [])
         | Inr (s', response) \<Rightarrow>
             (case dispatch_frames e cmds s' of
                (r, s'', out) \<Rightarrow> (r, s'', (response @ [newline]) # out)))
      else dispatch_frames e cmds s)"

text \<open>
  Lines 405--433 of \<open>main\<close>: what one loop iteration does with the bytes \<open>data\<close> that
  the UART holds (none when \<open>uart.any()\<close> is 0). The state is the robot record and
  \<open>rx_buffer\<close>; the result adds the lines written to the UART and the list
  \<open>commands[:-1]\<close> of the frames that line 423 takes out of the buffer (none when the
  buffer holds no line feed). The \<open>except\<close> clause catches a decoding fault as well as
  a fault of \<open>process_command\<close> and empties the buffer.
\<close>

definition uart_rx ::
  "env \<Rightarrow> string \<Rightarrow> robot \<times> string \<Rightarrow> (robot \<times> string) \<times> string list \<times> string list" where
  "uart_rx e data st =
     (case st of (s, rx_buffer) \<Rightarrow>
        if data = [] then ((s, rx_buffer), [], [])
        else
          (case decode data of
             Inl err \<Rightarrow> ((s, []), [], [])
           | Inr new_data \<Rightarrow>
               (let rx_buffer1 = rx_buffer @ new_data in
                if newline \<in> set rx_buffer1 then
                  (let commands = split_nl rx_buffer1 in
                   case dispatch_frames e (butlast commands) s of
                     (Some err, s2, out) \<Rightarrow> ((s2, []), out, butlast commands)
                   | (None, s2, out) \<Rightarrow> ((s2, last commands), out, butlast commands))
                else ((s, rx_buffer1), [], []))))"

section \<open>Main loop\<close>

text \<open>
  What one iteration of the \<open>while True\<close> loop of \<open>main\<close> (lines 400--457) takes from
  outside the program: the two bump switches as \<open>check_collisions\<close> reads them, the
  bytes waiting on the UART, the readings that \<open>follow_line\<close> would get from the line
  sensors, what the handlers of this iteration read, and what the periodic status report
  reads.
\<close>

record cycle =
  bump_left :: bool
  bump_right :: bool
  uart_data :: string
  readings :: "int list"
  cycle_env :: env
  status_env :: env

text \<open>
  One iteration. The state is the robot record, \<open>rx_buffer\<close> and \<open>counter\<close>. In source
  order: \<open>check_collisions()\<close>; the UART section; \<open>follow_line()\<close> when the mode is
  LINE\_FOLLOWING, the sensors are calibrated and no collision is latched, a fault of
  which leaves \<open>main\<close>; the counter, which at 600 is reset and has the status line
  written with the prefix AUTO. The result adds the lines written to the UART and the
  frames taken out of the buffer in this iteration.
\<close>

definition loop_iteration ::
  "cycle \<Rightarrow> (robot \<times> string) \<times> nat
     \<Rightarrow> py_error + ((robot \<times> string) \<times> nat) \<times> string list \<times> string list" where
  "loop_iteration c st =
     (case st of ((s, rx_buffer), counter) \<Rightarrow>
        (let s1 = fst (check_collisions (bump_left c) (bump_right c) s) in
         case uart_rx (cycle_env c) (uart_data c) (s1, rx_buffer) of
           ((s2, rx_buffer2), out, frames) \<Rightarrow>
             (case (if current_mode s2 = MODE_LINE_FOLLOWING \<and> line_calibrated s2
                       \<and> \<not> collision_detected s2
                    then follow_line (readings c) s2 else Inr s2) of
                Inl err \<Rightarrow> Inl err
              | Inr s3 \<Rightarrow>
                  (let counter1 = counter + 1 in
                   if counter1 \<ge> 600 then
                     Inr (((s3, rx_buffer2), 0),
                          out @ [''AUTO:'' @ snd (cmd_status (status_env c) s3) @ [newline]],
                          frames)
                   else Inr (((s3, rx_buffer2), counter1), out, frames)))))"

text \<open>
  The first iterations of the loop, one \<open>cycle\<close> of inputs each: the state reached, the
  lines written and the frames taken out of the buffer, in order.
\<close>

fun main_loop ::
  "cycle list \<Rightarrow> (robot \<times> string) \<times> nat
     \<Rightarrow> py_error + ((robot \<times> string) \<times> nat) \<times> string list \<times> string list" where
  "main_loop [] st = Inr (st, [], [])"
| "main_loop (c # cs) st =
     (case loop_iteration c st of
        Inl err \<Rightarrow> Inl err
      | Inr (st1, out1, frames1) \<Rightarrow>
          (case main_loop cs st1 of
             Inl err \<Rightarrow> Inl err
           | Inr (st2, out2, frames2) \<Rightarrow> Inr (st2, out1 @ out2, frames1 @ frames2)))"

text \<open>
  A sample iteration: no switch pressed, the given bytes on the UART, the sensors over a
  blank floor.
\<close>

definition quiet_cycle :: "string \<Rightarrow> cycle" where
  "quiet_cycle data =
     \<lparr>bump_left = False, bump_right = False, uart_data = data, readings = [0, 0, 0, 0, 0],
      cycle_env = sample_env, status_env = sample_env\<rparr>"

section \<open>Bridge node (main\_pico.py)\<close>

text \<open>
  The globals of the bridge and the fields of the \<open>BLEUARTBridge\<close> object. The radio
  stack is outside the repository; what the program does to it is recorded: \<open>tx_value\<close>
  is the value last written to the TX characteristic (what a read returns),
  \<open>notifications\<close> has one entry per call of \<open>_notify\<close>, the set of connections
  notified (a Python set is iterated in no fixed order) and the text, and \<open>uart_sent\<close>
  has the texts written to the serial link. \<open>ble_service\<close> says whether the global
  holds the service object.
\<close>

record bridge =
  connections :: "nat set"
  is_connected :: bool
  ble_service :: bool
  last_command :: string
  last_response :: string
  tx_value :: string
  notifications :: "(nat set \<times> string) list"
  uart_sent :: "string list"

text \<open>The state after \<open>main\<close> has built the service object (lines 27--30, 51--52, 180).\<close>

definition bridge_ready :: bridge where
  "bridge_ready =
     \<lparr>connections = {}, is_connected = False, ble_service = True,
      last_command = ''No commands received yet'',
      last_response = ''No response from robot yet'',
      tx_value = ''Robot Bridge Ready'', notifications = [], uart_sent = []\<rparr>"

text \<open>\<open>update_tx\<close> with \<open>_notify\<close> (lines 133--145).\<close>

definition update_tx :: "string \<Rightarrow> bridge \<Rightarrow> bridge" where
  "update_tx new_value b =
     b\<lparr>tx_value := new_value,
       notifications := notifications b @ [(connections b, new_value)]\<rparr>"

text \<open>\<open>_send_to_robot\<close> (lines 111--131).\<close>

definition send_to_robot :: "string \<Rightarrow> bridge \<Rightarrow> bridge" where
  "send_to_robot command b =
     (let command1 = (if command \<noteq> [] \<and> last command = newline then command
                      else command @ [newline]);
          b1 = b\<lparr>uart_sent := uart_sent b @ [command1]\<rparr>
      in update_tx (''Command '' @ [CHR 0x27] @ strip command1 @ [CHR 0x27]
                    @ '' sent to robot'') b1)"

text \<open>
  \<open>_irq\<close> (lines 58--91). A write event carries the bytes written to the RX
  characteristic; the events that change nothing are left out.
\<close>

datatype ble_event =
    IRQ_CENTRAL_CONNECT nat
  | IRQ_CENTRAL_DISCONNECT nat
  | IRQ_GATTS_WRITE string

fun irq :: "ble_event \<Rightarrow> bridge \<Rightarrow> bridge" where
  "irq (IRQ_CENTRAL_CONNECT conn_handle) b =
     b\<lparr>connections := insert conn_handle (connections b), is_connected := True\<rparr>"
| "irq (IRQ_CENTRAL_DISCONNECT conn_handle) b =
     b\<lparr>connections := connections b - {conn_handle}, is_connected := False\<rparr>"
| "irq (IRQ_GATTS_WRITE bytes) b =
     (case decode bytes of
        Inl err \<Rightarrow> b
      | Inr message \<Rightarrow> send_to_robot message (b\<lparr>last_command := message\<rparr>))"

text \<open>
  \<open>check_for_robot_response\<close> (lines 148--173). \<open>data\<close> is what \<open>uart.read()\<close>
  returns, empty when nothing is waiting. The whole chunk is decoded and stripped; it is
  not split into lines.
\<close>

definition check_for_robot_response :: "string \<Rightarrow> bridge \<Rightarrow> bridge \<times> bool" where
  "check_for_robot_response data b =
     (if data = [] then (b, False)
      else
        (case decode data of
           Inl err \<Rightarrow> (b, False)
         | Inr decoded \<Rightarrow>
             (let response_str = strip decoded;
                  b1 = b\<lparr>last_response := response_str\<rparr>
              in if is_connected b1 \<and> ble_service b1
                 then (update_tx (''Robot: '' @ response_str) b1, True)
                 else (b1, True))))"

section \<open>Properties of the line-following step\<close>

lemma centroid_five:
  "length v = 5 \<Longrightarrow> centroid v =
     Inr (if sum_list v = 0 then 2000
          else (1000 * (v ! 1) + 2000 * (v ! 2) + 3000 * (v ! 3) + 4000 * (v ! 4)) div sum_list v)"
  by (simp add: centroid_def bind_err_def py_index_def py_floordiv_def)

lemma estimate_l_five:
  "length v = 5 \<Longrightarrow> estimate_l prev v =
     (if v ! 1 < 700 \<and> v ! 2 < 700 \<and> v ! 3 < 700
      then Inr (if prev < 0 then 0 else 4000) else centroid v)"
  by (simp add: estimate_l_def bind_err_def py_index_def)

lemma estimate_l_no_zero_div: "estimate_l prev v \<noteq> Inl ZeroDivisionError"
  by (auto simp: estimate_l_def centroid_def bind_err_def py_index_def py_floordiv_def
      split: sum.splits py_error.splits)

text \<open>
  C2, as the spec states it, fails: with the readings [1000, 1000, 0, 0, 0] the central
  reading 1 is not below 700, the code divides 1000000 by the sum of all five readings
  (2000) and gets 500, while the claimed divisor v1+v2+v3+v4 (1000) gives 1000.
\<close>

theorem follow_line_divisor_counterexample:
  "estimate_l 0 [1000, 1000, 0, 0, 0] = Inr 500 \<and> claimed_l [1000, 1000, 0, 0, 0] = 1000"
  by (simp add: estimate_l_def centroid_def bind_err_def py_index_def py_floordiv_def
      claimed_l_def)

text \<open>
  C2, amended: for five readings of which the three central ones are not all below 700,
  one step of \<open>follow_line\<close> takes \<open>l\<close> as the weighted sum of readings 1..4 divided
  (floor division) by the sum of all five readings v0+v1+v2+v3+v4, and 2000 when that sum is
  zero; then e = l - 2000, d = e - last\_p, pid = 15 e + 300 d, the wheel speeds are
  max 0 (min base (base + pid)) and max 0 (min base (base - pid)) with base the current
  speed, and both \<open>p\<close> and \<open>last_p\<close> become e.
\<close>

theorem follow_line_step:
  assumes "length v = 5" and "\<not> (v ! 1 < 700 \<and> v ! 2 < 700 \<and> v ! 3 < 700)"
  shows "follow_line v s =
     (let l = (if sum_list v = 0 then 2000
               else (1000 * (v ! 1) + 2000 * (v ! 2) + 3000 * (v ! 3) + 4000 * (v ! 4))
                    div sum_list v);
          e = l - 2000;
          d = e - last_p s;
          pid = 15 * e + 300 * d;
          base = current_speed s
      in Inr (s\<lparr>line := v, p := e, last_p := e,
               motor := set_speeds (max 0 (min base (base + pid)))
                                   (max 0 (min base (base - pid)))\<rparr>))"
proof -
  have "estimate_l (p s) v = centroid v"
    using assms by (simp only: estimate_l_five if_False)
  then show ?thesis
    using assms(1) by (simp add: follow_line_def centroid_five bind_err_def Let_def algebra_simps)
qed

theorem follow_line_step_witness:
  "follow_line [1000, 1000, 0, 0, 0] initial_robot =
     Inr (initial_robot\<lparr>line := [1000, 1000, 0, 0, 0], p := - 1500, last_p := - 1500,
            motor := set_speeds 0 1000\<rparr>)"
  using follow_line_step [of "[1000, 1000, 0, 0, 0]" initial_robot]
  by (simp add: Let_def initial_robot_def SPEED_LEVEL_1_def)

text \<open>
  C7: with the readings [0, 0, 0, 0, 0] and a negative previous error the step takes the
  no-line branch, so \<open>l = 0\<close> and the new error is -2000; and no list of readings
  whatever makes \<open>follow_line\<close> end in a division fault, since the only division is
  inside the handler that turns a zero divisor into \<open>l = 2000\<close>.
\<close>

theorem follow_line_all_zero:
  "p s < 0 \<Longrightarrow>
     estimate_l (p s) [0, 0, 0, 0, 0] = Inr 0
     \<and> follow_line [0, 0, 0, 0, 0] s =
         Inr (s\<lparr>line := [0, 0, 0, 0, 0], p := - 2000, last_p := - 2000,
                motor := set_speeds
                  (max 0 (min (current_speed s)
                     (current_speed s + (- 30000 + (- 2000 - last_p s) * 300))))
                  (max 0 (min (current_speed s)
                     (current_speed s - (- 30000 + (- 2000 - last_p s) * 300))))\<rparr>)
     \<and> (\<forall>v. follow_line v s \<noteq> Inl ZeroDivisionError)"
  apply (intro conjI)
    apply (simp add: estimate_l_def bind_err_def py_index_def)
   apply (simp add: follow_line_def estimate_l_def bind_err_def py_index_def Let_def)
  apply (auto simp: follow_line_def bind_err_def Let_def estimate_l_no_zero_div split: sum.splits)
  done

theorem follow_line_all_zero_witness:
  "estimate_l (- 5) [0, 0, 0, 0, 0] = Inr 0
   \<and> follow_line [0, 0, 0, 0, 0] (initial_robot\<lparr>p := - 5, last_p := - 5\<rparr>) =
       Inr (initial_robot\<lparr>line := [0, 0, 0, 0, 0], p := - 2000, last_p := - 2000,
              motor := set_speeds 0 1000\<rparr>)"
  using follow_line_all_zero [of "initial_robot\<lparr>p := - 5, last_p := - 5\<rparr>"]
  by (simp add: initial_robot_def SPEED_LEVEL_1_def)

section \<open>Properties of the collision guard\<close>

text \<open>
  C3: from a state whose mode is not STOPPED, with the latch clear and both wheel speeds
  positive, a check that finds a bump switch pressed turns the motors off, sets the
  mode to STOPPED and sets the latch, and changes nothing else; from a latched state, a
  check that finds both switches released clears the latch and changes nothing else, the
  mode included.
\<close>

theorem check_collisions_edges:
  "(current_mode s \<noteq> MODE_STOPPED \<and> \<not> collision_detected s
      \<and> 0 < left_speed (motor s) \<and> 0 < right_speed (motor s) \<and> (l \<or> r)
    \<longrightarrow> fst (check_collisions l r s)
          = s\<lparr>current_mode := MODE_STOPPED, collision_detected := True, motor := motors_off\<rparr>)
   \<and> (collision_detected s
    \<longrightarrow> fst (check_collisions False False s) = s\<lparr>collision_detected := False\<rparr>)"
  by (simp add: check_collisions_def Let_def)

theorem check_collisions_edges_witness:
  "fst (check_collisions True False
          (initial_robot\<lparr>current_mode := MODE_LINE_FOLLOWING, motor := set_speeds 1000 1000\<rparr>))
     = initial_robot\<lparr>current_mode := MODE_STOPPED, collision_detected := True,
         motor := motors_off\<rparr>
   \<and> fst (check_collisions False False
            (initial_robot\<lparr>current_mode := MODE_MANUAL, collision_detected := True\<rparr>))
     = initial_robot\<lparr>current_mode := MODE_MANUAL, collision_detected := False\<rparr>"
  using check_collisions_edges [of "initial_robot\<lparr>current_mode := MODE_LINE_FOLLOWING,
            motor := set_speeds 1000 1000\<rparr>" True False]
    check_collisions_edges [of "initial_robot\<lparr>current_mode := MODE_MANUAL,
            collision_detected := True\<rparr>"]
  by (simp add: initial_robot_def set_speeds_def)

text \<open>
  C9: after every check the latch equals (left pressed or right pressed). The check stops
  the robot (motors off, mode STOPPED) exactly when a switch is pressed, the latch was
  clear, the mode was not STOPPED and both wheel speeds were positive; in every other case
  nothing but the latch changes.
\<close>

theorem check_collisions_latch:
  "collision_detected (fst (check_collisions l r s)) = (l \<or> r)
   \<and> fst (check_collisions l r s) =
       (if (l \<or> r) \<and> \<not> collision_detected s \<and> current_mode s \<noteq> MODE_STOPPED
           \<and> 0 < left_speed (motor s) \<and> 0 < right_speed (motor s)
        then s\<lparr>current_mode := MODE_STOPPED, collision_detected := True, motor := motors_off\<rparr>
        else s\<lparr>collision_detected := (l \<or> r)\<rparr>)"
  by (auto simp: check_collisions_def Let_def)

theorem check_collisions_latch_witness:
  "fst (check_collisions False True initial_robot) = initial_robot\<lparr>collision_detected := True\<rparr>"
  using check_collisions_latch [of False True initial_robot]
  by (simp add: initial_robot_def motors_off_def set_speeds_def)

section \<open>Properties of the calibration sequence\<close>

lemma fold_calibrate: "fold hw_effect (replicate n LineSensorsCalibrate) m = m"
  by (induction n) auto

lemma run_hw_no_fault:
  "(\<forall>k msg. f = Some (k, msg) \<longrightarrow> k < i \<or> i + length cs \<le> k) \<Longrightarrow>
   run_hw f i cs m = (None, fold hw_effect cs m)"
proof (induction cs arbitrary: i m)
  case Nil
  then show ?case by simp
next
  case (Cons c cs)
  have "raises_at f i = None"
    using Cons.prems by (cases f) (auto simp: raises_at_def)
  moreover have "run_hw f (Suc i) cs (hw_effect c m) = (None, fold hw_effect cs (hw_effect c m))"
    using Cons.prems by (intro Cons.IH) auto
  ultimately show ?case by simp
qed

lemma run_hw_fault:
  "i \<le> k \<Longrightarrow> k < i + length cs \<Longrightarrow> fst (run_hw (Some (k, msg)) i cs m) = Some msg"
proof (induction cs arbitrary: i m)
  case Nil
  then show ?case by simp
next
  case (Cons c cs)
  show ?case
  proof (cases "k = i")
    case True
    then show ?thesis by (simp add: raises_at_def)
  next
    case False
    then have "fst (run_hw (Some (k, msg)) (Suc i) cs (hw_effect c m)) = Some msg"
      using Cons.prems by (intro Cons.IH) auto
    with False show ?thesis by (simp add: raises_at_def)
  qed
qed

lemma fold_sweep: "fold hw_effect sweep_calls m = motors_off"
  by (simp add: sweep_calls_def fold_calibrate)

lemma fold_complete: "fold hw_effect complete_calls m = m"
  by (simp add: complete_calls_def)

lemma length_sweep: "length sweep_calls = 108"
  by (simp add: sweep_calls_def calibration_count_def)

lemma length_complete: "length complete_calls = 7"
  by (simp add: complete_calls_def)

lemma calibrate_success:
  assumes "\<not> fault_occurs f"
  shows "calibrate_line_sensors f s =
     (s\<lparr>current_mode := MODE_LINE_FOLLOWING, line_calibrated := True, motor := motors_off\<rparr>,
      ''LINE_SENSORS:CALIBRATED_AND_FOLLOWING'')"
proof -
  have a: "\<forall>k msg. f = Some (k, msg) \<longrightarrow> k < 0 \<or> 0 + length sweep_calls \<le> k"
    using assms by (auto simp: fault_occurs_def)
  have b: "\<forall>k msg. f = Some (k, msg) \<longrightarrow>
             k < length sweep_calls \<or> length sweep_calls + length complete_calls \<le> k"
    using assms by (auto simp: fault_occurs_def)
  show ?thesis
    by (simp add: calibrate_line_sensors_def Let_def run_hw_no_fault [OF a]
        run_hw_no_fault [OF b] fold_sweep fold_complete)
qed

lemma calibrate_fault:
  assumes "k < length sweep_calls + length complete_calls"
  shows "\<exists>s'. calibrate_line_sensors (Some (k, msg)) s
               = (s', ''ERROR:CALIBRATION_FAILED ('' @ msg @ '')'')
            \<and> \<not> line_calibrated s' \<and> current_mode s' = MODE_STOPPED"
proof (cases "k < length sweep_calls")
  case True
  then have "fst (run_hw (Some (k, msg)) 0 sweep_calls motors_off) = Some msg"
    by (intro run_hw_fault) auto
  then obtain m where "run_hw (Some (k, msg)) 0 sweep_calls motors_off = (Some msg, m)"
    by (cases "run_hw (Some (k, msg)) 0 sweep_calls motors_off") auto
  then show ?thesis
    by (simp add: calibrate_line_sensors_def Let_def calibration_failed_def)
next
  case False
  then have a: "\<forall>k' msg'. Some (k, msg) = Some (k', msg') \<longrightarrow>
                  k' < 0 \<or> 0 + length sweep_calls \<le> k'"
    by auto
  have "fst (run_hw (Some (k, msg)) (length sweep_calls) complete_calls motors_off) = Some msg"
    using False assms by (intro run_hw_fault) auto
  then obtain m where
    "run_hw (Some (k, msg)) (length sweep_calls) complete_calls motors_off = (Some msg, m)"
    by (cases "run_hw (Some (k, msg)) (length sweep_calls) complete_calls motors_off") auto
  then show ?thesis
    by (simp add: calibrate_line_sensors_def Let_def calibration_failed_def
        run_hw_no_fault [OF a] fold_sweep)
qed

text \<open>
  C10: \<open>main\<close> runs the calibration sequence before it enters the loop, without waiting
  for a command; when no driver call of the sequence raises, the state the first loop
  iteration starts from is calibrated and in mode LINE\_FOLLOWING, with the motors off.
\<close>

theorem boot_calibrated:
  "\<not> fault_occurs f \<Longrightarrow>
     boot f = initial_robot\<lparr>current_mode := MODE_LINE_FOLLOWING, line_calibrated := True\<rparr>
     \<and> line_calibrated (boot f) \<and> current_mode (boot f) = MODE_LINE_FOLLOWING"
  by (simp add: boot_def calibrate_success initial_robot_def)

theorem boot_calibrated_witness:
  "line_calibrated (boot None) \<and> current_mode (boot None) = MODE_LINE_FOLLOWING"
  using boot_calibrated [of None] by (simp add: fault_occurs_def)

section \<open>Properties of the calibration sequence and of what else writes the flag\<close>

lemma commands_line: "map_of COMMANDS b = Some (Callable Cmd_line_follow) \<Longrightarrow> b = ''LINE''"
  by (simp add: COMMANDS_def split: if_splits)

lemma line_follow_calibrated:
  "upper x \<noteq> ''CALIBRATE'' \<Longrightarrow> line_calibrated (fst (cmd_line_follow e x s)) = line_calibrated s"
  by (simp add: cmd_line_follow_def)

lemma call_calibrated:
  assumes "call e h args s = Inr (s', r)" and "line_calibrated s' \<noteq> line_calibrated s"
  shows "h = Cmd_line_follow \<and> (\<exists>x. args = [x] \<and> upper x = ''CALIBRATE'')"
proof (cases "(e, h, args, s)" rule: call.cases)
  case (8 e0 s0)
  then have "s' = fst (cmd_line_follow e [] s)" using assms(1) by simp
  then have "line_calibrated s' = line_calibrated s"
    by (simp add: cmd_line_follow_def upper_def)
  with assms(2) show ?thesis by simp
next
  case (9 e0 x s0)
  then have s': "s' = fst (cmd_line_follow e x s)" using assms(1) by simp
  have "upper x = ''CALIBRATE''"
  proof (rule ccontr)
    assume "upper x \<noteq> ''CALIBRATE''"
    then have "line_calibrated s' = line_calibrated s"
      unfolding s' by (rule line_follow_calibrated)
    with assms(2) show False by simp
  qed
  with 9 show ?thesis by simp
qed (use assms in \<open>auto simp: cmd_status_def cmd_forward_def cmd_backward_def cmd_left_def
      cmd_right_def cmd_stop_def cmd_speed_def cmd_heartbeat_def Let_def
      split: if_splits option.splits\<close>)

lemma process_command_calibrated:
  assumes "process_command e c s = Inr (s', r)" and "line_calibrated s' \<noteq> line_calibrated s"
  shows "\<exists>x rest. split (upper (strip c)) = ''LINE'' # x # rest \<and> upper x = ''CALIBRATE''"
proof (cases "split (upper (strip c))")
  case Nil
  with assms(1) show ?thesis by (simp add: process_command_def)
next
  case (Cons b rest)
  show ?thesis
  proof (cases "map_of COMMANDS b")
    case None
    with Cons assms show ?thesis by (simp add: process_command_def)
  next
    case (Some cmd)
    show ?thesis
    proof (cases cmd)
      case (Static x)
      with Some Cons assms show ?thesis by (simp add: process_command_def)
    next
      case (Callable h)
      let ?args = "if rest = [] then [] else [hd rest]"
      have c: "call e h ?args s = Inr (s', r)"
        using assms(1) Cons Some Callable
        by (cases rest) (simp_all add: process_command_def)
      from call_calibrated [OF c assms(2)]
      have h: "h = Cmd_line_follow" and x: "\<exists>x. ?args = [x] \<and> upper x = ''CALIBRATE''"
        by auto
      from x obtain x rest' where "rest = x # rest'" "upper x = ''CALIBRATE''"
        by (cases rest) (auto split: if_splits)
      moreover have "b = ''LINE''"
        using Some Callable h by (simp add: commands_line)
      ultimately show ?thesis using Cons by simp
    qed
  qed
qed

lemma follow_line_calibrated: "follow_line v s = Inr s' \<Longrightarrow> line_calibrated s' = line_calibrated s"
  by (auto simp: follow_line_def bind_err_def Let_def split: sum.splits)

text \<open>
  C4: started from any state, \<open>calibrate_line_sensors\<close> ends, when no driver call of
  its \<open>try\<close> block raises, with the flag \<open>line_calibrated\<close> set, the mode
  LINE\_FOLLOWING and the success answer; when a call of the block raises, with the flag
  clear, the mode STOPPED and an answer that carries the text of the fault. Nothing else
  sets the flag: a dispatched command that turns the flag from clear to set is a LINE
  command whose parameter is CALIBRATE, and \<open>check_collisions\<close>, \<open>follow_line\<close> and
  the status report leave the flag as it is.
\<close>

theorem calibration_contract:
  "(\<not> fault_occurs f \<longrightarrow>
      calibrate_line_sensors f s =
        (s\<lparr>current_mode := MODE_LINE_FOLLOWING, line_calibrated := True, motor := motors_off\<rparr>,
         ''LINE_SENSORS:CALIBRATED_AND_FOLLOWING''))
   \<and> (\<forall>k msg. f = Some (k, msg) \<and> fault_occurs f \<longrightarrow>
        (\<exists>s'. calibrate_line_sensors f s = (s', ''ERROR:CALIBRATION_FAILED ('' @ msg @ '')'')
              \<and> \<not> line_calibrated s' \<and> current_mode s' = MODE_STOPPED))
   \<and> (\<forall>s' r. process_command e c s = Inr (s', r) \<and> line_calibrated s' \<and> \<not> line_calibrated s
        \<longrightarrow> (\<exists>x rest. split (upper (strip c)) = ''LINE'' # x # rest \<and> upper x = ''CALIBRATE''))
   \<and> line_calibrated (fst (check_collisions l r s)) = line_calibrated s
   \<and> (\<forall>s'. follow_line v s = Inr s' \<longrightarrow> line_calibrated s' = line_calibrated s)
   \<and> line_calibrated (fst (cmd_status e s)) = line_calibrated s"
proof (intro conjI allI impI)
  assume "\<not> fault_occurs f"
  then show "calibrate_line_sensors f s =
        (s\<lparr>current_mode := MODE_LINE_FOLLOWING, line_calibrated := True, motor := motors_off\<rparr>,
         ''LINE_SENSORS:CALIBRATED_AND_FOLLOWING'')"
    by (rule calibrate_success)
next
  fix k msg
  assume "f = Some (k, msg) \<and> fault_occurs f"
  then have f: "f = Some (k, msg)" and k: "k < length sweep_calls + length complete_calls"
    by (auto simp: fault_occurs_def)
  show "\<exists>s'. calibrate_line_sensors f s = (s', ''ERROR:CALIBRATION_FAILED ('' @ msg @ '')'')
              \<and> \<not> line_calibrated s' \<and> current_mode s' = MODE_STOPPED"
    unfolding f by (rule calibrate_fault [OF k])
next
  fix s' r
  assume "process_command e c s = Inr (s', r) \<and> line_calibrated s' \<and> \<not> line_calibrated s"
  then show "\<exists>x rest. split (upper (strip c)) = ''LINE'' # x # rest \<and> upper x = ''CALIBRATE''"
    using process_command_calibrated [of e c s s' r] by auto
next
  show "line_calibrated (fst (check_collisions l r s)) = line_calibrated s"
    by (simp add: check_collisions_def Let_def)
next
  fix s'
  assume "follow_line v s = Inr s'"
  then show "line_calibrated s' = line_calibrated s" by (rule follow_line_calibrated)
next
  show "line_calibrated (fst (cmd_status e s)) = line_calibrated s"
    by (simp add: cmd_status_def Let_def)
qed

theorem calibration_contract_witness:
  "calibrate_line_sensors None initial_robot =
     (initial_robot\<lparr>current_mode := MODE_LINE_FOLLOWING, line_calibrated := True\<rparr>,
      ''LINE_SENSORS:CALIBRATED_AND_FOLLOWING'')
   \<and> (\<exists>s'. calibrate_line_sensors (Some (30, ''boom'')) (initial_robot\<lparr>line_calibrated := True\<rparr>)
             = (s', ''ERROR:CALIBRATION_FAILED (boom)'')
          \<and> \<not> line_calibrated s' \<and> current_mode s' = MODE_STOPPED)
   \<and> (\<exists>x rest. split (upper (strip ''line calibrate'')) = ''LINE'' # x # rest
          \<and> upper x = ''CALIBRATE'')"
proof -
  have ok: "\<not> fault_occurs None" by (simp add: fault_occurs_def)
  have bad: "fault_occurs (Some (30, ''boom''))"
    by (simp add: fault_occurs_def length_sweep length_complete)
  have words: "split (upper (strip ''line calibrate'')) = [''LINE'', ''CALIBRATE'']"
    by (simp add: split_def upper_def strip_def isspace_def toupper_def)
  have run: "process_command sample_env ''line calibrate'' initial_robot =
      Inr (initial_robot\<lparr>current_mode := MODE_LINE_FOLLOWING, line_calibrated := True\<rparr>,
           ''LINE_SENSORS:CALIBRATED_AND_FOLLOWING'')"
    unfolding process_command_def words
    by (simp add: COMMANDS_def cmd_line_follow_def upper_def
        toupper_def sample_env_def calibrate_success [OF ok] initial_robot_def)
  have cal: "line_calibrated (initial_robot\<lparr>current_mode := MODE_LINE_FOLLOWING,
      line_calibrated := True\<rparr>) \<and> \<not> line_calibrated initial_robot"
    by (simp add: initial_robot_def)
  note a = calibration_contract [of None initial_robot sample_env "''line calibrate''"
      False False "[]"]
  note b = calibration_contract [of "Some (30, ''boom'')" "initial_robot\<lparr>line_calibrated := True\<rparr>"
      sample_env "''line calibrate''" False False "[]"]
  have 1: "calibrate_line_sensors None initial_robot =
     (initial_robot\<lparr>current_mode := MODE_LINE_FOLLOWING, line_calibrated := True\<rparr>,
      ''LINE_SENSORS:CALIBRATED_AND_FOLLOWING'')"
    using a ok by (simp add: initial_robot_def)
  have 2: "\<exists>s'. calibrate_line_sensors (Some (30, ''boom'')) (initial_robot\<lparr>line_calibrated := True\<rparr>)
             = (s', ''ERROR:CALIBRATION_FAILED (boom)'')
          \<and> \<not> line_calibrated s' \<and> current_mode s' = MODE_STOPPED"
    using b bad by auto
  have 3: "\<exists>x rest. split (upper (strip ''line calibrate'')) = ''LINE'' # x # rest
          \<and> upper x = ''CALIBRATE''"
    using a run cal by blast
  from 1 2 3 show ?thesis by blast
qed

section \<open>Properties of command dispatch\<close>

lemma str_nat_small: "n < 10 \<Longrightarrow> str_nat n = [digit_char n]"
  by (simp add: str_nat.simps)

lemma str_nat_large: "10 \<le> n \<Longrightarrow> str_nat n = str_nat (n div 10) @ [digit_char (n mod 10)]"
  by (subst str_nat.simps) simp

text \<open>
  C6: a command text whose only word is FORWARD (in any case, with any surrounding
  whitespace), dispatched while the collision latch is set, answers
  ERROR:COLLISION\_DETECTED and returns the state unchanged; dispatched while the latch is
  clear it sets the mode to MANUAL and both wheel speeds to the current speed, and
  changes nothing else.
\<close>

theorem forward_dispatch:
  "split (upper (strip c)) = [''FORWARD''] \<Longrightarrow>
     process_command e c s =
       (if collision_detected s then Inr (s, ''ERROR:COLLISION_DETECTED'')
        else Inr (s\<lparr>current_mode := MODE_MANUAL,
                    motor := set_speeds (current_speed s) (current_speed s)\<rparr>,
                  ''MOVING:FORWARD at speed '' @ str_int (current_speed s)))"
  by (simp add: process_command_def COMMANDS_def cmd_forward_def)

theorem forward_dispatch_witness:
  "process_command sample_env '' forward '' (initial_robot\<lparr>collision_detected := True\<rparr>)
     = Inr (initial_robot\<lparr>collision_detected := True\<rparr>, ''ERROR:COLLISION_DETECTED'')
   \<and> process_command sample_env ''FORWARD'' initial_robot
     = Inr (initial_robot\<lparr>current_mode := MODE_MANUAL, motor := set_speeds 1000 1000\<rparr>,
            ''MOVING:FORWARD at speed 1000'')"
  using forward_dispatch [of "'' forward ''" sample_env "initial_robot\<lparr>collision_detected := True\<rparr>"]
    forward_dispatch [of "''FORWARD''" sample_env initial_robot]
  by (simp add: split_def upper_def strip_def isspace_def toupper_def initial_robot_def
      SPEED_LEVEL_1_def str_int_def str_nat_small str_nat_large digit_char_def)

section \<open>Properties of the receive buffer\<close>

lemma split_nl_nonempty: "split_nl xs \<noteq> []"
  by (induction xs) (auto split: list.splits)

lemma split_nl_no_newline: "newline \<notin> set a \<Longrightarrow> split_nl a = [a]"
  by (induction a) auto

lemma split_nl_append:
  "split_nl (a @ b) = butlast (split_nl a) @ split_nl (last (split_nl a) @ b)"
proof (induction a)
  case Nil
  show ?case by simp
next
  case (Cons c cs)
  obtain f fs where cs: "split_nl cs = f # fs"
    using split_nl_nonempty [of cs] by (cases "split_nl cs") auto
  show ?case
  proof (cases "c = newline")
    case True
    with Cons cs show ?thesis by simp
  next
    case False
    show ?thesis
    proof (cases fs)
      case Nil
      with Cons cs False show ?thesis by simp
    next
      case (Cons g gs)
      with Cons.IH cs False show ?thesis by simp
    qed
  qed
qed

lemma frames_append:
  "butlast (split_nl (a @ b)) = butlast (split_nl a) @ butlast (split_nl (last (split_nl a) @ b))"
  by (subst split_nl_append) (simp add: butlast_append split_nl_nonempty)

lemma rest_append:
  "last (split_nl (a @ b)) = last (split_nl (last (split_nl a) @ b))"
  by (subst split_nl_append) (simp add: split_nl_nonempty)

lemma utf8_scan_append: "utf8_scan n a \<Longrightarrow> utf8_scan 0 b \<Longrightarrow> utf8_scan n (a @ b)"
  by (induction a arbitrary: n) (auto simp: Let_def split: if_splits)

lemma utf8_scan_concat: "\<forall>d\<in>set ds. utf8_scan 0 d \<Longrightarrow> utf8_scan 0 (concat ds)"
  by (induction ds) (auto intro: utf8_scan_append)

lemma dispatch_frames_append:
  "dispatch_frames e (xs @ ys) s =
     (case dispatch_frames e xs s of
        (Some err, s1, o1) \<Rightarrow> (Some err, s1, o1)
      | (None, s1, o1) \<Rightarrow>
          (case dispatch_frames e ys s1 of (r, s2, o2) \<Rightarrow> (r, s2, o1 @ o2)))"
  by (induction xs arbitrary: s) (auto split: sum.splits prod.splits option.splits)

lemma dispatch_frames_ok:
  "\<forall>f\<in>set fs. strip f \<noteq> [] \<longrightarrow> (\<forall>s'. \<exists>r. process_command e (strip f) s' = Inr r) \<Longrightarrow>
   fst (dispatch_frames e fs s) = None"
proof (induction fs arbitrary: s)
  case Nil
  show ?case by simp
next
  case (Cons f fs)
  show ?case
  proof (cases "strip f = []")
    case True
    with Cons show ?thesis by simp
  next
    case False
    with Cons.prems obtain s1 r where r: "process_command e (strip f) s = Inr (s1, r)"
      by fastforce
    have "fst (dispatch_frames e fs s1) = None"
      using Cons.prems by (intro Cons.IH) simp
    with False r show ?thesis by (auto split: prod.splits)
  qed
qed

lemma uart_rx_ok:
  assumes "data \<noteq> []" and "utf8_scan 0 data"
    and "\<forall>f\<in>set (butlast (split_nl (buf @ data))).
           strip f \<noteq> [] \<longrightarrow> (\<forall>s'. \<exists>r. process_command e (strip f) s' = Inr r)"
  shows "uart_rx e data (s, buf) =
     (case dispatch_frames e (butlast (split_nl (buf @ data))) s of
        (r, s1, o1) \<Rightarrow>
          ((s1, last (split_nl (buf @ data))), o1, butlast (split_nl (buf @ data))))"
proof (cases "newline \<in> set (buf @ data)")
  case True
  have "fst (dispatch_frames e (butlast (split_nl (buf @ data))) s) = None"
    using assms(3) by (rule dispatch_frames_ok)
  then obtain s1 o1 where
    "dispatch_frames e (butlast (split_nl (buf @ data))) s = (None, s1, o1)"
    by (cases "dispatch_frames e (butlast (split_nl (buf @ data))) s") auto
  with True assms(1,2) show ?thesis
    by (simp add: uart_rx_def decode_def Let_def)
next
  case False
  then have "split_nl (buf @ data) = [buf @ data]"
    by (rule split_nl_no_newline)
  with False assms(1,2) show ?thesis
    by (simp add: uart_rx_def decode_def Let_def)
qed

lemma follow_line_five: "length v = 5 \<Longrightarrow> \<exists>s'. follow_line v s = Inr s'"
  by (simp add: follow_line_def estimate_l_five centroid_five bind_err_def Let_def)

lemma loop_iteration_ok:
  assumes "utf8_scan 0 (uart_data c)" and "length (readings c) = 5"
    and "uart_data c \<noteq> [] \<Longrightarrow>
         \<forall>f\<in>set (butlast (split_nl (buf @ uart_data c))).
           strip f \<noteq> [] \<longrightarrow> (\<forall>e s'. \<exists>r. process_command e (strip f) s' = Inr r)"
  shows "\<exists>s' n' out. loop_iteration c ((s, buf), n) =
     Inr (((s', if uart_data c = [] then buf else last (split_nl (buf @ uart_data c))), n'),
          out, if uart_data c = [] then [] else butlast (split_nl (buf @ uart_data c)))"
proof -
  let ?s1 = "fst (check_collisions (bump_left c) (bump_right c) s)"
  let ?B = "if uart_data c = [] then buf else last (split_nl (buf @ uart_data c))"
  let ?F = "if uart_data c = [] then [] else butlast (split_nl (buf @ uart_data c))"
  have "\<exists>s2 out. uart_rx (cycle_env c) (uart_data c) (?s1, buf) = ((s2, ?B), out, ?F)"
  proof (cases "uart_data c = []")
    case True
    then show ?thesis by (simp add: uart_rx_def)
  next
    case False
    have ok: "\<forall>f\<in>set (butlast (split_nl (buf @ uart_data c))).
           strip f \<noteq> [] \<longrightarrow> (\<forall>s'. \<exists>r. process_command (cycle_env c) (strip f) s' = Inr r)"
      using assms(3) [OF False] by blast
    from uart_rx_ok [OF False assms(1) ok, of ?s1] False show ?thesis
      by (simp split: prod.splits)
  qed
  then obtain s2 out where
    u: "uart_rx (cycle_env c) (uart_data c) (?s1, buf) = ((s2, ?B), out, ?F)"
    by blast
  have "\<exists>s3. (if current_mode s2 = MODE_LINE_FOLLOWING \<and> line_calibrated s2
                  \<and> \<not> collision_detected s2
               then follow_line (readings c) s2 else Inr s2) = Inr s3"
  proof (cases "current_mode s2 = MODE_LINE_FOLLOWING \<and> line_calibrated s2
                  \<and> \<not> collision_detected s2")
    case True
    with follow_line_five [OF assms(2), of s2] show ?thesis by simp
  next
    case False
    then show ?thesis by auto
  qed
  then obtain s3 where
    f: "(if current_mode s2 = MODE_LINE_FOLLOWING \<and> line_calibrated s2
            \<and> \<not> collision_detected s2
         then follow_line (readings c) s2 else Inr s2) = Inr s3"
    by blast
  show ?thesis
    unfolding loop_iteration_def by (simp only: prod.case Let_def u f sum.case split: if_splits) blast
qed

lemma main_loop_ok:
  assumes "\<forall>c\<in>set cs. utf8_scan 0 (uart_data c)"
    and "\<forall>c\<in>set cs. length (readings c) = 5"
    and "\<forall>f\<in>set (butlast (split_nl (buf @ concat (map uart_data cs)))).
           strip f \<noteq> [] \<longrightarrow> (\<forall>e s'. \<exists>r. process_command e (strip f) s' = Inr r)"
  shows "\<exists>s' n' out. main_loop cs ((s, buf), n) =
     Inr (((s', if concat (map uart_data cs) = [] then buf
                else last (split_nl (buf @ concat (map uart_data cs)))), n'),
          out, if concat (map uart_data cs) = [] then []
               else butlast (split_nl (buf @ concat (map uart_data cs))))"
  using assms
proof (induction cs arbitrary: s buf n)
  case Nil
  show ?case by simp
next
  case (Cons c cs)
  let ?d = "uart_data c"
  let ?ds = "concat (map uart_data cs)"
  show ?case
  proof (cases "?d = []")
    case True
    have "\<exists>s' n' out. loop_iteration c ((s, buf), n) = Inr (((s', buf), n'), out, [])"
      using loop_iteration_ok [of c buf s n] Cons.prems(1,2) True by simp
    then obtain s1 n1 o1 where
      it: "loop_iteration c ((s, buf), n) = Inr (((s1, buf), n1), o1, [])"
      by blast
    have "\<exists>s' n' out. main_loop cs ((s1, buf), n1) =
       Inr (((s', if ?ds = [] then buf else last (split_nl (buf @ ?ds))), n'),
            out, if ?ds = [] then [] else butlast (split_nl (buf @ ?ds)))"
      using Cons.prems True by (intro Cons.IH) simp_all
    then obtain s2 n2 o2 where
      "main_loop cs ((s1, buf), n1) =
       Inr (((s2, if ?ds = [] then buf else last (split_nl (buf @ ?ds))), n2),
            o2, if ?ds = [] then [] else butlast (split_nl (buf @ ?ds)))"
      by blast
    with it True show ?thesis by (simp del: concat_eq_Nil_conv)
  next
    case False
    let ?X = "buf @ ?d"
    let ?r1 = "last (split_nl ?X)"
    have fr: "butlast (split_nl (buf @ concat (map uart_data (c # cs))))
        = butlast (split_nl ?X) @ butlast (split_nl (?r1 @ ?ds))"
      using frames_append [of ?X ?ds] by simp
    have rest: "last (split_nl (buf @ concat (map uart_data (c # cs))))
        = last (split_nl (?r1 @ ?ds))"
      using rest_append [of ?X ?ds] by simp
    have ok1: "\<forall>f\<in>set (butlast (split_nl ?X)).
           strip f \<noteq> [] \<longrightarrow> (\<forall>e s'. \<exists>r. process_command e (strip f) s' = Inr r)"
      using Cons.prems(3) unfolding fr by simp
    have ok2: "\<forall>f\<in>set (butlast (split_nl (?r1 @ ?ds))).
           strip f \<noteq> [] \<longrightarrow> (\<forall>e s'. \<exists>r. process_command e (strip f) s' = Inr r)"
      using Cons.prems(3) unfolding fr by simp
    have "\<exists>s' n' out. loop_iteration c ((s, buf), n) =
        Inr (((s', ?r1), n'), out, butlast (split_nl ?X))"
      using loop_iteration_ok [of c buf s n] Cons.prems(1,2) ok1 False by simp
    then obtain s1 n1 o1 where
      it: "loop_iteration c ((s, buf), n) = Inr (((s1, ?r1), n1), o1, butlast (split_nl ?X))"
      by blast
    have "\<exists>s' n' out. main_loop cs ((s1, ?r1), n1) =
       Inr (((s', if ?ds = [] then ?r1 else last (split_nl (?r1 @ ?ds))), n'),
            out, if ?ds = [] then [] else butlast (split_nl (?r1 @ ?ds)))"
      using Cons.prems(1,2) ok2 by (intro Cons.IH) simp_all
    then obtain s2 n2 o2 where
      ih: "main_loop cs ((s1, ?r1), n1) =
       Inr (((s2, if ?ds = [] then ?r1 else last (split_nl (?r1 @ ?ds))), n2),
            o2, if ?ds = [] then [] else butlast (split_nl (?r1 @ ?ds)))"
      by blast
    have ne: "concat (map uart_data (c # cs)) \<noteq> []"
      using False by simp
    show ?thesis
    proof (cases "?ds = []")
      case True
      with it ih False show ?thesis by (simp del: concat_eq_Nil_conv)
    next
      case nonempty: False
      from it ih nonempty
      have "main_loop (c # cs) ((s, buf), n) =
         Inr (((s2, last (split_nl (?r1 @ ?ds))), n2), o1 @ o2,
              butlast (split_nl ?X) @ butlast (split_nl (?r1 @ ?ds)))"
        by (simp del: concat_eq_Nil_conv)
      then show ?thesis
        unfolding fr [symmetric] rest [symmetric] using ne
        by (simp only: if_False) blast
    qed
  qed
qed

text \<open>
  C5, as the spec states it, fails. The two bytes of a UTF-8 character followed by a line
  feed, received in one read, give one frame; received with the character split over the
  reads of two loop iterations, each read fails to decode, the buffer is emptied twice and
  no frame comes out. And the text STATUS X, a line feed, PING and a line feed, received in
  one read, gives the frames STATUS X and PING; received with the second read starting at
  NG, the fault of STATUS X empties the buffer, PI is lost and the frames are STATUS X
  and NG.
\<close>

theorem fragmentation_counterexample:
  "main_loop [quiet_cycle [CHR 0xC3], quiet_cycle [CHR 0xA9, newline]] ((initial_robot, []), 0)
     = Inr (((initial_robot, []), 2), [], [])
   \<and> main_loop [quiet_cycle [CHR 0xC3, CHR 0xA9, newline]] ((initial_robot, []), 0)
     = Inr (((initial_robot, []), 1), [''ERROR:UNKNOWN_COMMAND'' @ [newline]],
            [[CHR 0xC3, CHR 0xA9]])
   \<and> main_loop [quiet_cycle (''STATUS X'' @ [newline] @ ''PI''), quiet_cycle (''NG'' @ [newline])]
       ((initial_robot, []), 0)
     = Inr (((initial_robot, []), 2), [''ERROR:UNKNOWN_COMMAND'' @ [newline]],
            [''STATUS X'', ''NG''])
   \<and> main_loop [quiet_cycle (''STATUS X'' @ [newline] @ ''PING'' @ [newline])]
       ((initial_robot, []), 0)
     = Inr (((initial_robot, []), 1), [], [''STATUS X'', ''PING''])"
  by (simp add: loop_iteration_def quiet_cycle_def check_collisions_def initial_robot_def
      uart_rx_def decode_def newline_def process_command_def strip_def upper_def
      isspace_def toupper_def split_def COMMANDS_def Let_def)

text \<open>
  C5, amended: take a byte sequence cut into fragments, one per loop iteration, such that
  every fragment is well-formed UTF-8 on its own and no complete frame of the sequence
  makes \<open>process_command\<close> raise; let the line sensors hand over five readings in every
  iteration, and let the buffer hold no line feed at the start unless some byte arrives.
  Then, whatever the switches and sensors read in those iterations, the loop takes out of
  the buffer the same frames in the same order, and leaves the same rest in the buffer, as
  one iteration that receives the whole sequence in one read: the frames are the pieces
  of the buffered text followed by the sequence that end at a line feed, the line feed
  dropped, and the rest is the text after the last line feed. (Each frame that is not
  blank is passed, stripped, to \<open>process_command\<close> in that order. The robot state and
  the answers are not part of the statement: \<open>check_collisions\<close> and \<open>follow_line\<close>
  run in every iteration.)
\<close>

theorem fragmentation_invariance:
  assumes "\<forall>c\<in>set cs. utf8_scan 0 (uart_data c)"
    and "\<forall>c\<in>set cs. length (readings c) = 5"
    and "\<forall>f\<in>set (butlast (split_nl (buf @ concat (map uart_data cs)))).
           strip f \<noteq> [] \<longrightarrow> (\<forall>e s'. \<exists>r. process_command e (strip f) s' = Inr r)"
    and "concat (map uart_data cs) = [] \<longrightarrow> newline \<notin> set buf"
    and "uart_data c = concat (map uart_data cs)" and "length (readings c) = 5"
  shows "\<exists>s1 n1 out1 s2 n2 out2.
      main_loop cs ((s, buf), n) =
        Inr (((s1, last (split_nl (buf @ uart_data c))), n1), out1,
             butlast (split_nl (buf @ uart_data c)))
    \<and> main_loop [c] ((s, buf), n) =
        Inr (((s2, last (split_nl (buf @ uart_data c))), n2), out2,
             butlast (split_nl (buf @ uart_data c)))"
proof -
  let ?D = "concat (map uart_data cs)"
  have e: "(if ?D = [] then buf else last (split_nl (buf @ ?D))) = last (split_nl (buf @ ?D))"
    "(if ?D = [] then [] else butlast (split_nl (buf @ ?D))) = butlast (split_nl (buf @ ?D))"
    using assms(4) by (simp_all add: split_nl_no_newline del: concat_eq_Nil_conv)
  from main_loop_ok [OF assms(1-3), of s n]
  obtain s1 n1 out1 where
    1: "main_loop cs ((s, buf), n) =
        Inr (((s1, last (split_nl (buf @ ?D))), n1), out1, butlast (split_nl (buf @ ?D)))"
    unfolding e by blast
  have u: "\<forall>x\<in>set [c]. utf8_scan 0 (uart_data x)"
    using utf8_scan_concat [of "map uart_data cs"] assms(1,5) by simp
  have r: "\<forall>x\<in>set [c]. length (readings x) = 5"
    using assms(6) by simp
  have c1: "concat (map uart_data [c]) = ?D"
    using assms(5) by simp
  have ok: "\<forall>f\<in>set (butlast (split_nl (buf @ concat (map uart_data [c])))).
           strip f \<noteq> [] \<longrightarrow> (\<forall>e s'. \<exists>r. process_command e (strip f) s' = Inr r)"
    unfolding c1 by (rule assms(3))
  from main_loop_ok [OF u r ok, of s n]
  obtain s2 n2 out2 where
    2: "main_loop [c] ((s, buf), n) =
        Inr (((s2, last (split_nl (buf @ ?D))), n2), out2, butlast (split_nl (buf @ ?D)))"
    unfolding c1 e by blast
  from 1 2 show ?thesis unfolding assms(5) by blast
qed

theorem fragmentation_invariance_witness:
  "\<exists>s1 n1 out1 s2 n2 out2.
      main_loop [quiet_cycle ''PI'', quiet_cycle (''NG'' @ [newline] @ ''for''),
                 quiet_cycle (''ward'' @ [newline] @ ''st'')]
          ((initial_robot\<lparr>current_mode := MODE_LINE_FOLLOWING, line_calibrated := True\<rparr>, []), 0)
        = Inr (((s1, ''st''), n1), out1, [''PING'', ''forward''])
    \<and> main_loop [quiet_cycle (''PING'' @ [newline] @ ''forward'' @ [newline] @ ''st'')]
          ((initial_robot\<lparr>current_mode := MODE_LINE_FOLLOWING, line_calibrated := True\<rparr>, []), 0)
        = Inr (((s2, ''st''), n2), out2, [''PING'', ''forward''])"
proof -
  let ?cs = "[quiet_cycle ''PI'', quiet_cycle (''NG'' @ [newline] @ ''for''),
              quiet_cycle (''ward'' @ [newline] @ ''st'')]"
  let ?c = "quiet_cycle (''PING'' @ [newline] @ ''forward'' @ [newline] @ ''st'')"
  let ?s = "initial_robot\<lparr>current_mode := MODE_LINE_FOLLOWING, line_calibrated := True\<rparr>"
  have u: "\<forall>c\<in>set ?cs. utf8_scan 0 (uart_data c)"
    by (simp add: quiet_cycle_def newline_def)
  have v: "\<forall>c\<in>set ?cs. length (readings c) = 5"
    by (simp add: quiet_cycle_def)
  have cc: "concat (map uart_data ?cs) = ''PING'' @ [newline] @ ''forward'' @ [newline] @ ''st''"
    by (simp add: quiet_cycle_def)
  have d: "uart_data ?c = ''PING'' @ [newline] @ ''forward'' @ [newline] @ ''st''"
    by (simp add: quiet_cycle_def)
  have fr: "butlast (split_nl ([] @ ''PING'' @ [newline] @ ''forward'' @ [newline] @ ''st''))
      = [''PING'', ''forward'']"
    by (simp add: newline_def)
  have rest: "last (split_nl ([] @ ''PING'' @ [newline] @ ''forward'' @ [newline] @ ''st''))
      = ''st''"
    by (simp add: newline_def)
  have p1: "\<forall>e s'. \<exists>r. process_command e (strip ''PING'') s' = Inr r"
    by (simp add: process_command_def split_def upper_def strip_def isspace_def toupper_def
        COMMANDS_def)
  have p2: "\<forall>e s'. \<exists>r. process_command e (strip ''forward'') s' = Inr r"
    by (simp add: process_command_def split_def upper_def strip_def isspace_def toupper_def
        COMMANDS_def cmd_forward_def)
  have ok: "\<forall>f\<in>set (butlast (split_nl ([] @ concat (map uart_data ?cs)))).
           strip f \<noteq> [] \<longrightarrow> (\<forall>e s'. \<exists>r. process_command e (strip f) s' = Inr r)"
    unfolding cc fr using p1 p2 by simp
  have ne: "concat (map uart_data ?cs) = [] \<longrightarrow> newline \<notin> set []"
    by simp
  have dc: "uart_data ?c = concat (map uart_data ?cs)"
    unfolding cc d by (rule refl)
  have vc: "length (readings ?c) = 5"
    by (simp add: quiet_cycle_def)
  from fragmentation_invariance [OF u v ok ne dc vc, of ?s 0]
  show ?thesis unfolding d fr rest .
qed

section \<open>Faults of the dispatcher\<close>

text \<open>
  C1 is what the docstring of \<open>process_command\<close> promises (process a received command
  and return the appropriate response), and the code does not keep it: the text STATUS X
  passes the parameter X to \<open>cmd_status\<close>, which takes none, and FORWARD 1 passes 1 to
  \<open>cmd_forward\<close>; the \<open>TypeError\<close> of the call leaves \<open>process_command\<close>, which has
  no handler for it, and no answer is returned. The \<open>except\<close> clause of the main loop
  then empties the receive buffer and writes nothing. The neighbouring paths do answer a
  stray parameter: PING X answers PONG, LINE X answers from the default branch of
  \<open>cmd_line_follow\<close>, an unknown word with a parameter answers ERROR:UNKNOWN\_COMMAND.
\<close>

theorem process_command_status_x_raises:
  "process_command sample_env ''STATUS X'' initial_robot = Inl TypeError
   \<and> process_command sample_env ''FORWARD 1'' initial_robot = Inl TypeError
   \<and> uart_rx sample_env (''STATUS X'' @ [newline]) (initial_robot, [])
       = ((initial_robot, []), [], [''STATUS X''])
   \<and> process_command sample_env ''PING X'' initial_robot = Inr (initial_robot, ''PONG'')
   \<and> process_command sample_env ''LINE X'' initial_robot
       = Inr (initial_robot, ''LINE_FOLLOWING:INACTIVE'')
   \<and> process_command sample_env ''FOO X'' initial_robot
       = Inr (initial_robot, ''ERROR:UNKNOWN_COMMAND'')"
  by (simp add: process_command_def split_def upper_def strip_def isspace_def toupper_def
      COMMANDS_def uart_rx_def decode_def newline_def cmd_line_follow_def initial_robot_def
      Let_def)

section \<open>Properties of the bridge relay\<close>

text \<open>
  C8, as the spec states it, fails: while no central is connected, a line from the robot
  is not written to the TX characteristic, whose value stays what it was; and a chunk that
  holds two lines is forwarded as one notification, the prefix standing before the first
  line only.
\<close>

theorem robot_response_counterexample:
  "tx_value (fst (check_for_robot_response (''PONG'' @ [newline]) bridge_ready))
     = ''Robot Bridge Ready''
   \<and> notifications (fst (check_for_robot_response (''A'' @ [newline] @ ''B'' @ [newline])
        (irq (IRQ_CENTRAL_CONNECT 1) bridge_ready)))
     = [({1}, ''Robot: A'' @ [newline] @ ''B'')]"
  by (simp add: check_for_robot_response_def decode_def newline_def bridge_ready_def
      strip_def isspace_def update_tx_def Let_def)

text \<open>
  C8, amended: every non-empty chunk read from the serial link that decodes is stripped
  as a whole and recorded as \<open>last_response\<close>; when the flag \<open>is_connected\<close> is set
  (and the service object exists) the text made of the marker "Robot: " and the stripped
  chunk is written to the TX characteristic and sent as one notification to every
  connection of the connection set; when the flag is clear nothing is written or notified.
\<close>

theorem robot_response_forwarded:
  "data \<noteq> [] \<and> utf8_scan 0 data \<longrightarrow>
     check_for_robot_response data b =
       (if is_connected b \<and> ble_service b
        then (b\<lparr>last_response := strip data, tx_value := ''Robot: '' @ strip data,
                notifications := notifications b
                  @ [(connections b, ''Robot: '' @ strip data)]\<rparr>, True)
        else (b\<lparr>last_response := strip data\<rparr>, True))"
  by (simp add: check_for_robot_response_def decode_def update_tx_def Let_def)

theorem robot_response_forwarded_witness:
  "check_for_robot_response (''PONG'' @ [newline])
       (irq (IRQ_CENTRAL_CONNECT 2) (irq (IRQ_CENTRAL_CONNECT 1) bridge_ready))
     = (bridge_ready\<lparr>connections := {1, 2}, is_connected := True,
          last_response := ''PONG'', tx_value := ''Robot: PONG'',
          notifications := [({1, 2}, ''Robot: PONG'')]\<rparr>, True)"
  using robot_response_forwarded [of "''PONG'' @ [newline]"
      "irq (IRQ_CENTRAL_CONNECT 2) (irq (IRQ_CENTRAL_CONNECT 1) bridge_ready)"]
  by (simp add: newline_def bridge_ready_def strip_def isspace_def insert_commute)

end
